theory Spec2Isabelle
  imports Main "HOL-Library.Word" "HOL-Library.Multiset"
begin

section \<open>Documents\<close>

text \<open>
  The handlers of \<^verbatim>\<open>main.go\<close> build their responses from \<^verbatim>\<open>gin.H\<close>,
  \<^verbatim>\<open>map[string]interface{}\<close> and \<^verbatim>\<open>[]interface{}\<close> values, and the payload of a
  job is such a value too. They are modelled as JSON documents. An object is a list of
  key/value pairs in the order in which the source writes the keys.
\<close>

datatype json =
    JNull
  | JBool bool
  | JInt int
  | JString string
  | JArray "json list"
  | JObject "(string \<times> json) list"

text \<open>An HTTP response: the status code and the body handed to \<^verbatim>\<open>c.JSON\<close>.\<close>

type_synonym response = "nat \<times> json"

section \<open>Identifiers\<close>

text \<open>
  Go's \<^verbatim>\<open>s[:n]\<close> on a string panics when \<^verbatim>\<open>n\<close> exceeds the length of
  \<^verbatim>\<open>s\<close>; \<open>None\<close> is the panic. A \<open>string\<close> is a list of bytes, which is what
  Go slices.
\<close>

definition slice_to :: "string \<Rightarrow> nat \<Rightarrow> string option" where
  "slice_to s n = (if n \<le> length s then Some (take n s) else None)"

text \<open>
  Modelled from the spec: \<^verbatim>\<open>uuid.New().String()\<close> of the package
  \<^verbatim>\<open>github.com/google/uuid\<close>, which is not among the sources. A UUID is an array of
  16 bytes, here a 128-bit word read most significant byte first, and its string form
  is the canonical one: the bytes in lower-case hexadecimal, in groups of 4, 2, 2, 2
  and 6 bytes separated by \<^verbatim>\<open>-\<close>.
\<close>

type_synonym uuid = "128 word"

definition hexdigit :: "nat \<Rightarrow> char" where
  "hexdigit n = ''0123456789abcdef'' ! (n mod 16)"

definition hex_byte :: "8 word \<Rightarrow> string" where
  "hex_byte b = [hexdigit (unat b div 16), hexdigit (unat b mod 16)]"

definition uuid_byte :: "uuid \<Rightarrow> nat \<Rightarrow> 8 word" where
  "uuid_byte u i = ucast (drop_bit (8 * (15 - i)) u)"

definition hex_Encode :: "uuid \<Rightarrow> nat list \<Rightarrow> string" where
  "hex_Encode u ns = concat (map (\<lambda>i. hex_byte (uuid_byte u i)) ns)"

definition uuid_String :: "uuid \<Rightarrow> string" where
  "uuid_String u =
     hex_Encode u [0, 1, 2, 3] @ ''-'' @ hex_Encode u [4, 5] @ ''-'' @
     hex_Encode u [6, 7] @ ''-'' @ hex_Encode u [8, 9] @ ''-'' @
     hex_Encode u [10, 11, 12, 13, 14, 15]"

text \<open>\<^verbatim>\<open>generatePromptID\<close>; the argument is the UUID that \<^verbatim>\<open>uuid.New()\<close> draws.\<close>

definition generatePromptID :: "uuid \<Rightarrow> string" where
  "generatePromptID u = uuid_String u"

section \<open>The output collaborator\<close>

text \<open>\<^verbatim>\<open>generateMockOutput\<close>. \<open>None\<close> is the panic of \<^verbatim>\<open>promptID[:8]\<close>.\<close>

definition generateMockOutput :: "string \<Rightarrow> json option" where
  "generateMockOutput promptID =
     (case slice_to promptID 8 of
        None \<Rightarrow> None
      | Some p \<Rightarrow>
          Some (JObject [(''9'', JObject [(''images'', JArray [JObject
            [(''filename'', JString (p @ ''.png'')),
             (''subfolder'', JString ''''),
             (''type'', JString ''output'')]])])]))"

text \<open>
  The file system that \<^verbatim>\<open>copyAndRenameImage\<close> works on: a path is absent, a
  directory, or a file with its content. The calls into \<^verbatim>\<open>os\<close> and \<^verbatim>\<open>io\<close> can
  fail for reasons outside the program (permissions, a full disk); a \<open>fault\<close> says
  which call of one run does so. \<open>CopyFault n\<close> is a copy that breaks after \<open>n\<close>
  bytes.
\<close>

datatype node = Dir | File string

type_synonym filesys = "string \<rightharpoonup> node"

datatype fault = NoFault | MkdirAllFault | OpenFault | CreateFault | CopyFault nat

text \<open>The four wrapped errors that \<^verbatim>\<open>copyAndRenameImage\<close> returns, by the call that failed.\<close>

datatype copy_error = MkdirAllError | OpenError | CreateError | CopyError

definition os_MkdirAll :: "fault \<Rightarrow> filesys \<Rightarrow> string \<Rightarrow> filesys option" where
  "os_MkdirAll f fs d =
     (if f = MkdirAllFault then None
      else case fs d of
        None \<Rightarrow> Some (fs(d \<mapsto> Dir))
      | Some Dir \<Rightarrow> Some fs
      | Some (File c) \<Rightarrow> None)"

definition os_Open :: "fault \<Rightarrow> filesys \<Rightarrow> string \<Rightarrow> node option" where
  "os_Open f fs p = (if f = OpenFault then None else fs p)"

definition os_Create :: "fault \<Rightarrow> filesys \<Rightarrow> string \<Rightarrow> filesys option" where
  "os_Create f fs p =
     (if f = CreateFault then None
      else case fs p of
        Some Dir \<Rightarrow> None
      | _ \<Rightarrow> Some (fs(p \<mapsto> File [])))"

text \<open>\<^verbatim>\<open>io.Copy(destFile, sourceFile)\<close>: the new file system and whether the copy succeeded.
  Reading from a directory fails.\<close>

definition io_Copy :: "fault \<Rightarrow> filesys \<Rightarrow> string \<Rightarrow> node \<Rightarrow> filesys \<times> bool" where
  "io_Copy f fs dest src =
     (case src of
        Dir \<Rightarrow> (fs, False)
      | File c \<Rightarrow>
          (case f of
             CopyFault n \<Rightarrow> (fs(dest \<mapsto> File (take n c)), False)
           | _ \<Rightarrow> (fs(dest \<mapsto> File c), True)))"

text \<open>\<^verbatim>\<open>filepath.Join\<close> of a directory and a file name that needs no cleaning.\<close>

definition filepath_Join :: "string \<Rightarrow> string \<Rightarrow> string" where
  "filepath_Join d n = d @ ''/'' @ n"

definition sourcePath :: string where
  "sourcePath = ''resources/image.jpg''"

definition outputDir :: string where
  "outputDir = ''outputs''"

text \<open>
  \<^verbatim>\<open>copyAndRenameImage\<close>. \<open>None\<close> is the panic of \<^verbatim>\<open>promptID[:8]\<close>; otherwise
  the result is the returned error (\<open>None\<close> for \<^verbatim>\<open>nil\<close>) and the file system left
  behind.
\<close>

definition copyAndRenameImage ::
  "fault \<Rightarrow> filesys \<Rightarrow> string \<Rightarrow> (copy_error option \<times> filesys) option" where
  "copyAndRenameImage f fs promptID =
     (case slice_to promptID 8 of
        None \<Rightarrow> None
      | Some p \<Rightarrow>
          (let newFileName = ''output_'' @ p @ ''.jpg'';
               destPath = filepath_Join outputDir newFileName
           in Some
             (case os_MkdirAll f fs outputDir of
                None \<Rightarrow> (Some MkdirAllError, fs)
              | Some fs1 \<Rightarrow>
                  (case os_Open f fs1 sourcePath of
                     None \<Rightarrow> (Some OpenError, fs1)
                   | Some sourceFile \<Rightarrow>
                       (case os_Create f fs1 destPath of
                          None \<Rightarrow> (Some CreateError, fs1)
                        | Some fs2 \<Rightarrow>
                            (case io_Copy f fs2 destPath sourceFile of
                               (fs3, ok) \<Rightarrow>
                                 (if ok then None else Some CopyError, fs3)))))))"

section \<open>The job table\<close>

text \<open>\<^verbatim>\<open>PromptInfo\<close>. \<open>Output\<close> is \<open>None\<close> while the Go map is \<^verbatim>\<open>nil\<close>.\<close>

record PromptInfo =
  Prompt :: json
  ClientID :: string
  Status :: string
  Output :: "json option"
  ID :: int
  PromptID :: string

text \<open>
  A \<^verbatim>\<open>processQueue\<close> goroutine is at one of the places where it can be overtaken by
  another goroutine, named by the line of \<^verbatim>\<open>main.go\<close> it executes next:
  \<^item> \<open>L148\<close>: started, about to take the lock;
  \<^item> \<open>L163\<close>: the lock released at line 161, about to test \<^verbatim>\<open>m.runningTask\<close>;
  \<^item> \<open>L164\<close>: the test passed, about to read \<^verbatim>\<open>m.runningTask\<close> again as the
    argument of \<^verbatim>\<open>processPrompt\<close>;
  \<^item> \<open>L177 p\<close>: inside \<^verbatim>\<open>processPrompt(p)\<close>, asleep or waiting for the lock;
  \<^item> \<open>L165\<close>: \<^verbatim>\<open>processPrompt\<close> returned and released the lock, about to take it
    again to clear the marker;
  \<^item> \<open>Exited\<close>: returned.
\<close>

datatype pc = L148 | L163 | L164 | L177 "nat option" | L165 | Exited

text \<open>
  The state of the process. \<open>prompts\<close>, \<open>queueID\<close> and \<open>runningTask\<close> are the
  fields of \<^verbatim>\<open>ComfyUIMock\<close>; the mutex is held exactly during one step below. The
  table and the marker hold pointers: \<open>heap\<close> lists the \<^verbatim>\<open>PromptInfo\<close> objects
  allocated so far and a pointer is an index into it. \<open>queueID\<close> is a Go \<^verbatim>\<open>int\<close>
  that is only ever incremented by one per stored job, so it is kept as an integer.
  \<open>stdout\<close> collects what \<^verbatim>\<open>fmt.Printf\<close> reports.
\<close>

record state =
  heap :: "PromptInfo list"
  prompts :: "string \<rightharpoonup> nat"
  queueID :: int
  runningTask :: "nat option"
  goroutines :: "pc list"
  disk :: filesys
  stdout :: "copy_error list"

text \<open>\<^verbatim>\<open>NewComfyUIMock\<close>, on a given file system.\<close>

definition init :: "filesys \<Rightarrow> state" where
  "init fs0 =
     \<lparr>heap = [], prompts = Map.empty, queueID = 0, runningTask = None,
      goroutines = [], disk = fs0, stdout = []\<rparr>"

section \<open>The handlers\<close>

text \<open>
  \<^verbatim>\<open>handlePrompt\<close>. The request is what \<^verbatim>\<open>ShouldBindJSON\<close> makes of the body: its
  error message, or the client id and the payload. \<^verbatim>\<open>go m.processQueue()\<close> adds a
  goroutine.
\<close>

definition handlePrompt :: "uuid \<Rightarrow> string + string \<times> json \<Rightarrow> state \<Rightarrow> response \<times> state" where
  "handlePrompt u request s =
     (case request of
        Inl err \<Rightarrow> ((400, JObject [(''error'', JString err)]), s)
      | Inr (client_id, prompt) \<Rightarrow>
          (let promptID = generatePromptID u;
               qid = queueID s + 1;
               promptInfo = \<lparr>Prompt = prompt, ClientID = client_id, Status = ''pending'',
                             Output = None, ID = qid, PromptID = promptID\<rparr>
           in ((200, JObject [(''prompt_id'', JString promptID)]),
               s\<lparr>heap := heap s @ [promptInfo],
                 prompts := (prompts s)(promptID \<mapsto> length (heap s)),
                 queueID := qid,
                 goroutines := goroutines s @ [L148]\<rparr>)))"

text \<open>A \<^verbatim>\<open>nil\<close> map is encoded as \<^verbatim>\<open>null\<close>.\<close>

definition json_of_map :: "json option \<Rightarrow> json" where
  "json_of_map m = (case m of None \<Rightarrow> JNull | Some d \<Rightarrow> d)"

text \<open>
  \<^verbatim>\<open>handleHistory\<close>. The job is looked up under the lock (lines 84 to 86), in the state
  \<open>s\<close>. Its fields are read after the lock has been released: \<^verbatim>\<open>Status\<close> at line
  93, \<^verbatim>\<open>Prompt\<close> at line 100 and \<^verbatim>\<open>Output\<close> at line 101. Other goroutines can run
  in between, up to the middle of a critical section of theirs, so each read has a heap
  of its own: \<open>h93\<close>, \<open>h100\<close> and \<open>h101\<close> hold the objects as they are when that line
  is executed.
\<close>

definition handleHistory ::
  "state \<Rightarrow> PromptInfo list \<Rightarrow> PromptInfo list \<Rightarrow> PromptInfo list \<Rightarrow> string \<Rightarrow> response \<times> state" where
  "handleHistory s h93 h100 h101 promptID =
     (case prompts s promptID of
        None \<Rightarrow> ((404, JObject [(''error'', JString ''Prompt not found'')]), s)
      | Some a \<Rightarrow>
          (if Status (h93 ! a) \<noteq> ''completed'' then ((200, JObject []), s)
           else
             ((200, JObject [(promptID, JObject
                [(''prompt'', Prompt (h100 ! a)),
                 (''outputs'', json_of_map (Output (h101 ! a))),
                 (''status'', JObject
                    [(''status_str'', JString ''success''),
                     (''completed'', JBool True),
                     (''messages'', JArray
                        [JArray [JString ''execution_start'',
                                 JObject [(''prompt_id'', JString promptID)]],
                         JArray [JString ''execution_cached'',
                                 JObject [(''nodes'', JArray [JString ''4'', JString ''7'',
                                                              JString ''5'', JString ''6'']),
                                          (''prompt_id'', JString promptID)]]])])])]), s)))"

text \<open>
  Go visits the keys of a map in an order of its own choosing, a new one for each
  \<^verbatim>\<open>range\<close> loop. A loop over \<^verbatim>\<open>m.prompts\<close> takes that order as an argument:
  any list that holds every key once.
\<close>

definition range_order :: "(string \<rightharpoonup> nat) \<Rightarrow> string list \<Rightarrow> bool" where
  "range_order m ks = (distinct ks \<and> set ks = dom m)"

text \<open>The entry of a job in a queue list.\<close>

definition queue_entry :: "PromptInfo \<Rightarrow> json" where
  "queue_entry p = JArray [JInt (ID p), JString (PromptID p), Prompt p, JArray [JString ''9'']]"

definition queueRunning :: "state \<Rightarrow> json list" where
  "queueRunning s = (case runningTask s of None \<Rightarrow> [] | Some a \<Rightarrow> [queue_entry (heap s ! a)])"

fun pendingEntries :: "PromptInfo list \<Rightarrow> (string \<rightharpoonup> nat) \<Rightarrow> string list \<Rightarrow> json list" where
  "pendingEntries h m [] = []"
| "pendingEntries h m (k # ks) =
     (case m k of
        None \<Rightarrow> pendingEntries h m ks
      | Some a \<Rightarrow>
          (if Status (h ! a) = ''pending'' then queue_entry (h ! a) # pendingEntries h m ks
           else pendingEntries h m ks))"

definition queuePending :: "string list \<Rightarrow> state \<Rightarrow> json list" where
  "queuePending ks s = pendingEntries (heap s) (prompts s) ks"

text \<open>\<^verbatim>\<open>handleQueue\<close>, with the order \<open>ks\<close> of its loop.\<close>

definition handleQueue :: "string list \<Rightarrow> state \<Rightarrow> response \<times> state" where
  "handleQueue ks s =
     ((200, JObject [(''queue_running'', JArray (queueRunning s)),
                     (''queue_pending'', JArray (queuePending ks s))]), s)"

section \<open>The processing loop\<close>

text \<open>The loop of lines 154 to 160: the first pending job in the order of the loop.\<close>

fun rangePending :: "PromptInfo list \<Rightarrow> (string \<rightharpoonup> nat) \<Rightarrow> string list \<Rightarrow> nat option" where
  "rangePending h m [] = None"
| "rangePending h m (k # ks) =
     (case m k of
        None \<Rightarrow> rangePending h m ks
      | Some a \<Rightarrow> (if Status (h ! a) = ''pending'' then Some a else rangePending h m ks))"

text \<open>Lines 148 to 161 of \<^verbatim>\<open>processQueue\<close>, run by goroutine \<open>g\<close> under the lock.\<close>

definition processQueue_L148 :: "string list \<Rightarrow> nat \<Rightarrow> state \<Rightarrow> state" where
  "processQueue_L148 ks g s =
     (if runningTask s \<noteq> None then s\<lparr>goroutines := (goroutines s)[g := Exited]\<rparr>
      else
        (let s1 = (case rangePending (heap s) (prompts s) ks of
                     None \<Rightarrow> s
                   | Some a \<Rightarrow>
                       s\<lparr>runningTask := Some a,
                         heap := (heap s)[a := (heap s ! a)\<lparr>Status := ''processing''\<rparr>]\<rparr>)
         in s1\<lparr>goroutines := (goroutines s1)[g := L163]\<rparr>))"

text \<open>Line 163: the test of \<^verbatim>\<open>m.runningTask\<close>, read without the lock.\<close>

definition processQueue_L163 :: "nat \<Rightarrow> state \<Rightarrow> state" where
  "processQueue_L163 g s =
     s\<lparr>goroutines := (goroutines s)[g := (if runningTask s \<noteq> None then L164 else Exited)]\<rparr>"

text \<open>Line 164: \<^verbatim>\<open>m.runningTask\<close> is read once more and passed to \<^verbatim>\<open>processPrompt\<close>.\<close>

definition processQueue_L164 :: "nat \<Rightarrow> state \<Rightarrow> state" where
  "processQueue_L164 g s = s\<lparr>goroutines := (goroutines s)[g := L177 (runningTask s)]\<rparr>"

text \<open>
  Lines 177 to 188 of \<^verbatim>\<open>processPrompt\<close>, after the sleep, under the lock. \<open>None\<close>
  is a panic: the pointer is \<^verbatim>\<open>nil\<close>, or \<^verbatim>\<open>promptID[:8]\<close> is out of range.
\<close>

definition processPrompt :: "fault \<Rightarrow> nat option \<Rightarrow> state \<Rightarrow> state option" where
  "processPrompt f prompt s =
     (case prompt of
        None \<Rightarrow> None
      | Some a \<Rightarrow>
          (case generateMockOutput (PromptID (heap s ! a)) of
             None \<Rightarrow> None
           | Some out \<Rightarrow>
               (let s1 = s\<lparr>heap := (heap s)[a := (heap s ! a)\<lparr>Status := ''completed'',
                                                               Output := Some out\<rparr>]\<rparr>
                in case copyAndRenameImage f (disk s1) (PromptID (heap s1 ! a)) of
                     None \<Rightarrow> None
                   | Some (err, fs') \<Rightarrow>
                       Some (s1\<lparr>disk := fs',
                                stdout := stdout s1 @ (case err of None \<Rightarrow> [] | Some e \<Rightarrow> [e])\<rparr>))))"

definition processQueue_L177 :: "fault \<Rightarrow> nat \<Rightarrow> state \<Rightarrow> state option" where
  "processQueue_L177 f g s =
     (case goroutines s ! g of
        L177 prompt \<Rightarrow>
          (case processPrompt f prompt s of
             None \<Rightarrow> None
           | Some s1 \<Rightarrow> Some (s1\<lparr>goroutines := (goroutines s1)[g := L165]\<rparr>))
      | _ \<Rightarrow> Some s)"

text \<open>
  The heap between lines 180 and 181 of \<^verbatim>\<open>processPrompt(a)\<close>: the status is written, the
  output not yet. A goroutine that holds the lock never sees it. One that reads without
  the lock can: \<open>readable s h\<close> says that \<open>h\<close> is a heap such a goroutine can read
  while the process is in the state \<open>s\<close> or takes its next step, which is the heap of
  \<open>s\<close> or, when a goroutine of the loop is inside \<^verbatim>\<open>processPrompt(a)\<close>, the heap in
  the middle of its critical section.
\<close>

definition heap_L180 :: "nat \<Rightarrow> PromptInfo list \<Rightarrow> PromptInfo list" where
  "heap_L180 a h = h[a := (h ! a)\<lparr>Status := ''completed''\<rparr>]"

definition readable :: "state \<Rightarrow> PromptInfo list \<Rightarrow> bool" where
  "readable s h =
     (h = heap s \<or>
      (\<exists>g a. g < length (goroutines s) \<and> goroutines s ! g = L177 (Some a) \<and>
             h = heap_L180 a (heap s)))"

text \<open>Lines 165 to 168: the marker is cleared under the lock and the loop started again.\<close>

definition processQueue_L165 :: "nat \<Rightarrow> state \<Rightarrow> state" where
  "processQueue_L165 g s =
     s\<lparr>runningTask := None, goroutines := (goroutines s)[g := Exited] @ [L148]\<rparr>"

section \<open>The process as a transition system\<close>

text \<open>
  What happens next is chosen by the clients and by the scheduler: a request is served,
  or a goroutine of the loop runs up to the next place where it can be overtaken. The
  sleep of \<^verbatim>\<open>processPrompt\<close> takes no step: it only decides how late
  \<open>Process\<close> comes. A handler writes to the state only under the lock; what
  \<^verbatim>\<open>handleHistory\<close> reads after it has released the lock changes its response and
  not the state, so a request is one step.
\<close>

datatype event =
    POST_prompt uuid "string + string \<times> json"
  | GET_history string
  | GET_queue "string list"
  | Pick nat "string list"
  | Test nat
  | Call nat
  | Process nat fault
  | Clear nat

definition at_pc :: "nat \<Rightarrow> pc \<Rightarrow> state \<Rightarrow> bool" where
  "at_pc g p s = (g < length (goroutines s) \<and> goroutines s ! g = p)"

fun enabled :: "event \<Rightarrow> state \<Rightarrow> bool" where
  "enabled (POST_prompt u request) s = True"
| "enabled (GET_history promptID) s = True"
| "enabled (GET_queue ks) s = range_order (prompts s) ks"
| "enabled (Pick g ks) s = (at_pc g L148 s \<and> range_order (prompts s) ks)"
| "enabled (Test g) s = at_pc g L163 s"
| "enabled (Call g) s = at_pc g L164 s"
| "enabled (Process g f) s = (g < length (goroutines s) \<and> (case goroutines s ! g of L177 p \<Rightarrow> True | _ \<Rightarrow> False))"
| "enabled (Clear g) s = at_pc g L165 s"

text \<open>One step; \<open>None\<close> is a panic, which ends the process.\<close>

fun step :: "event \<Rightarrow> state \<Rightarrow> state option" where
  "step (POST_prompt u request) s = Some (snd (handlePrompt u request s))"
| "step (GET_history promptID) s =
     Some (snd (handleHistory s (heap s) (heap s) (heap s) promptID))"
| "step (GET_queue ks) s = Some (snd (handleQueue ks s))"
| "step (Pick g ks) s = Some (processQueue_L148 ks g s)"
| "step (Test g) s = Some (processQueue_L163 g s)"
| "step (Call g) s = Some (processQueue_L164 g s)"
| "step (Process g f) s = processQueue_L177 f g s"
| "step (Clear g) s = Some (processQueue_L165 g s)"

fun run :: "event list \<Rightarrow> state \<Rightarrow> state option" where
  "run [] s = Some s"
| "run (e # es) s =
     (if enabled e s then (case step e s of None \<Rightarrow> None | Some s' \<Rightarrow> run es s') else None)"

inductive reachable :: "state \<Rightarrow> bool" where
  reachable_init: "reachable (init fs0)"
| reachable_step: "reachable s \<Longrightarrow> enabled e s \<Longrightarrow> step e s = Some s' \<Longrightarrow> reachable s'"

section \<open>Invariants\<close>

definition inv_ptr :: "state \<Rightarrow> bool" where
  "inv_ptr s =
     ((\<forall>k a. prompts s k = Some a \<longrightarrow> a < length (heap s)) \<and>
      (\<forall>a. runningTask s = Some a \<longrightarrow> a < length (heap s)) \<and>
      (\<forall>g a. g < length (goroutines s) \<and> goroutines s ! g = L177 (Some a) \<longrightarrow> a < length (heap s)))"

definition inv_heap :: "state \<Rightarrow> bool" where
  "inv_heap s =
     (queueID s = int (length (heap s)) \<and>
      (\<forall>a < length (heap s).
         ID (heap s ! a) = int a + 1 \<and>
         (\<exists>u. PromptID (heap s ! a) = generatePromptID u) \<and>
         (Output (heap s ! a) \<noteq> None) = (Status (heap s ! a) = ''completed'') \<and>
         (Status (heap s ! a) = ''completed'' \<longrightarrow>
            Output (heap s ! a) = generateMockOutput (PromptID (heap s ! a)))))"

section \<open>Example states\<close>

definition req :: "string + string \<times> json" where
  "req = Inr (''c1'', JObject [(''a'', JInt 1)])"

definition disk0 :: filesys where
  "disk0 = [''resources/image.jpg'' \<mapsto> File ''jpeg'']"

definition two_pending :: state where
  "two_pending = snd (handlePrompt 2 req (snd (handlePrompt 1 req (init disk0))))"


definition job1 :: "string \<Rightarrow> json option \<Rightarrow> PromptInfo" where
  "job1 st out =
     \<lparr>Prompt = JObject [(''a'', JInt 1)], ClientID = ''c1'', Status = st, Output = out,
      ID = 1, PromptID = ''00000000-0000-0000-0000-000000000001''\<rparr>"

definition output1 :: json where
  "output1 = JObject [(''9'', JObject [(''images'', JArray [JObject
     [(''filename'', JString ''00000000.png''),
      (''subfolder'', JString ''''),
      (''type'', JString ''output'')]])])]"

definition trace_asleep :: "event list" where
  "trace_asleep = [POST_prompt 1 req, Pick 0 [generatePromptID 1], Test 0, Call 0]"

definition asleep :: "filesys \<Rightarrow> state" where
  "asleep fs =
     \<lparr>heap = [job1 ''processing'' None],
      prompts = [''00000000-0000-0000-0000-000000000001'' \<mapsto> 0],
      queueID = 1, runningTask = Some 0, goroutines = [L177 (Some 0)],
      disk = fs, stdout = []\<rparr>"

definition window :: state where
  "window =
     \<lparr>heap = [job1 ''completed'' (Some output1)],
      prompts = [''00000000-0000-0000-0000-000000000001'' \<mapsto> 0],
      queueID = 1, runningTask = Some 0, goroutines = [L165],
      disk = [''resources/image.jpg'' \<mapsto> File ''jpeg'', ''outputs'' \<mapsto> Dir,
              ''outputs/output_00000000.jpg'' \<mapsto> File ''jpeg''],
      stdout = []\<rparr>"

text \<open>
  Two schedules. In \<open>trace_window\<close> a job is submitted and a goroutine of the loop picks
  it, processes it and returns from \<^verbatim>\<open>processPrompt\<close>. \<open>race_trace\<close> goes on: the
  goroutine clears the marker and starts goroutine 1, which finds nothing pending and
  releases the lock (line 161). Before goroutine 1 reads \<^verbatim>\<open>m.runningTask\<close> at line 163,
  a second job is submitted and picked by goroutine 2. Goroutine 1 then sees the marker
  set and enters \<^verbatim>\<open>processPrompt\<close> for the second job as well. Goroutine 2 finishes
  first and starts goroutine 3, which picks one of two further jobs. When goroutine 1
  finishes, it clears the marker of that job and starts goroutine 6, which picks the
  other one.
\<close>

definition trace_window :: "event list" where
  "trace_window = trace_asleep @ [Process 0 NoFault]"

definition race_trace :: "event list" where
  "race_trace =
     trace_window @
     [Clear 0,
      Pick 1 [generatePromptID 1],
      POST_prompt 2 req,
      Pick 2 [generatePromptID 2, generatePromptID 1],
      Test 1, Call 1,
      Test 2, Call 2, Process 2 NoFault, Clear 2,
      POST_prompt 3 req, POST_prompt 4 req,
      Pick 3 [generatePromptID 4, generatePromptID 3, generatePromptID 2, generatePromptID 1],
      Process 1 NoFault, Clear 1,
      Pick 6 [generatePromptID 4, generatePromptID 3, generatePromptID 2, generatePromptID 1]]"



definition heap_torn :: "PromptInfo list" where
  "heap_torn = heap_L180 0 (heap (asleep disk0))"

section \<open>Properties of the steps\<close>

lemma rangePending_Some:
  "rangePending h m ks = Some a \<Longrightarrow> \<exists>k \<in> set ks. m k = Some a \<and> Status (h ! a) = ''pending''"
  by (induction ks) (auto split: option.splits if_splits)

lemma rangePending_None:
  "rangePending h m ks = None \<Longrightarrow> k \<in> set ks \<Longrightarrow> m k = Some a \<Longrightarrow> Status (h ! a) \<noteq> ''pending''"
  by (induction ks) (auto split: option.splits if_splits)

lemma hexdigit_length: "length (hex_byte b) = 2"
  by (simp add: hex_byte_def)

lemma generatePromptID_length: "length (generatePromptID u) = 36"
  by (simp add: generatePromptID_def uuid_String_def hex_Encode_def hex_byte_def)

lemma generateMockOutput_generated: "generateMockOutput (generatePromptID u) \<noteq> None"
  by (simp add: generateMockOutput_def slice_to_def generatePromptID_length)

lemma copyAndRenameImage_generated: "copyAndRenameImage f fs (generatePromptID u) \<noteq> None"
  by (simp add: copyAndRenameImage_def slice_to_def generatePromptID_length Let_def)

lemma handleHistory_state [simp]: "snd (handleHistory s h93 h100 h101 promptID) = s"
  by (simp add: handleHistory_def split: option.splits)

lemma handleQueue_state [simp]: "snd (handleQueue ks s) = s"
  by (simp add: handleQueue_def)

lemma processQueue_L148_busy:
  "runningTask s \<noteq> None \<Longrightarrow> processQueue_L148 ks g s = s\<lparr>goroutines := (goroutines s)[g := Exited]\<rparr>"
  by (simp add: processQueue_L148_def)

lemma processQueue_L148_idle:
  "runningTask s = None \<Longrightarrow> rangePending (heap s) (prompts s) ks = None \<Longrightarrow>
   processQueue_L148 ks g s = s\<lparr>goroutines := (goroutines s)[g := L163]\<rparr>"
  by (simp add: processQueue_L148_def)

lemma processQueue_L148_pick:
  "runningTask s = None \<Longrightarrow> rangePending (heap s) (prompts s) ks = Some a \<Longrightarrow>
   processQueue_L148 ks g s =
     s\<lparr>runningTask := Some a, heap := (heap s)[a := (heap s ! a)\<lparr>Status := ''processing''\<rparr>],
       goroutines := (goroutines s)[g := L163]\<rparr>"
  by (simp add: processQueue_L148_def)

lemma processQueue_L148_cases:
  obtains (busy) "runningTask s \<noteq> None"
      "processQueue_L148 ks g s = s\<lparr>goroutines := (goroutines s)[g := Exited]\<rparr>"
  | (idle) "runningTask s = None" "rangePending (heap s) (prompts s) ks = None"
      "processQueue_L148 ks g s = s\<lparr>goroutines := (goroutines s)[g := L163]\<rparr>"
  | (pick) a k where "runningTask s = None" "rangePending (heap s) (prompts s) ks = Some a"
      "prompts s k = Some a" "Status (heap s ! a) = ''pending''"
      "processQueue_L148 ks g s =
         s\<lparr>runningTask := Some a, heap := (heap s)[a := (heap s ! a)\<lparr>Status := ''processing''\<rparr>],
           goroutines := (goroutines s)[g := L163]\<rparr>"
proof (cases "runningTask s")
  case (Some b)
  then show ?thesis using busy processQueue_L148_busy by simp
next
  case None
  show ?thesis
  proof (cases "rangePending (heap s) (prompts s) ks")
    case N: None
    then show ?thesis using idle None processQueue_L148_idle by simp
  next
    case (Some a)
    from rangePending_Some[OF Some] obtain k where "prompts s k = Some a" "Status (heap s ! a) = ''pending''"
      by auto
    then show ?thesis using pick None Some processQueue_L148_pick by simp
  qed
qed

lemma PromptID_update:
  "PromptID (h[a := (h ! a)\<lparr>Status := x, Output := y\<rparr>] ! a) = PromptID (h ! a)"
  by (cases "a < length h") (simp_all add: list_update_beyond)

lemma processPrompt_Some:
  assumes "processPrompt f prompt s = Some s'"
  obtains a out err fs' where "prompt = Some a"
    "generateMockOutput (PromptID (heap s ! a)) = Some out"
    "copyAndRenameImage f (disk s) (PromptID (heap s ! a)) = Some (err, fs')"
    "s' = s\<lparr>heap := (heap s)[a := (heap s ! a)\<lparr>Status := ''completed'', Output := Some out\<rparr>],
            disk := fs', stdout := stdout s @ (case err of None \<Rightarrow> [] | Some e \<Rightarrow> [e])\<rparr>"
  using assms
  by (auto simp: processPrompt_def Let_def PromptID_update split: option.splits prod.splits)

lemma processQueue_L177_Some:
  assumes "processQueue_L177 f g s = Some s'" "enabled (Process g f) s"
  obtains a out err fs' where "goroutines s ! g = L177 (Some a)" "g < length (goroutines s)"
    "generateMockOutput (PromptID (heap s ! a)) = Some out"
    "copyAndRenameImage f (disk s) (PromptID (heap s ! a)) = Some (err, fs')"
    "s' = s\<lparr>heap := (heap s)[a := (heap s ! a)\<lparr>Status := ''completed'', Output := Some out\<rparr>],
            disk := fs', stdout := stdout s @ (case err of None \<Rightarrow> [] | Some e \<Rightarrow> [e]),
            goroutines := (goroutines s)[g := L165]\<rparr>"
proof -
  from assms(2) obtain p where p: "goroutines s ! g = L177 p" "g < length (goroutines s)"
    by (auto split: pc.splits)
  with assms(1) obtain s1 where s1: "processPrompt f p s = Some s1"
    "s' = s1\<lparr>goroutines := (goroutines s1)[g := L165]\<rparr>"
    by (auto simp: processQueue_L177_def split: option.splits)
  from s1(1) show ?thesis
  proof (cases rule: processPrompt_Some)
    case (1 a out err fs')
    then show ?thesis using that[of a out err fs'] p s1(2) by simp
  qed
qed

text \<open>How a step changes the heap.\<close>

lemma step_heap:
  assumes "step e s = Some s'" "enabled e s"
  shows "(heap s' = heap s \<and> queueID s' = queueID s)
       \<or> (\<exists>u c p. heap s' = heap s @ [\<lparr>Prompt = p, ClientID = c, Status = ''pending'', Output = None,
                ID = queueID s + 1, PromptID = generatePromptID u\<rparr>] \<and> queueID s' = queueID s + 1)
       \<or> (\<exists>a k. prompts s k = Some a \<and> Status (heap s ! a) = ''pending'' \<and> queueID s' = queueID s \<and>
             heap s' = (heap s)[a := (heap s ! a)\<lparr>Status := ''processing''\<rparr>])
       \<or> (\<exists>a out g. goroutines s ! g = L177 (Some a) \<and> g < length (goroutines s) \<and> generateMockOutput (PromptID (heap s ! a)) = Some out \<and> queueID s' = queueID s \<and>
             heap s' = (heap s)[a := (heap s ! a)\<lparr>Status := ''completed'', Output := Some out\<rparr>])"
proof (cases e)
  case (POST_prompt u request)
  then show ?thesis using assms
    by (cases request) (auto simp: handlePrompt_def Let_def)
next
  case (GET_history x)
  then show ?thesis using assms by auto
next
  case (GET_queue ks)
  then show ?thesis using assms by auto
next
  case (Pick g ks)
  show ?thesis
  proof (cases rule: processQueue_L148_cases[of s ks g])
    case busy
    with assms Pick have "s' = s\<lparr>goroutines := (goroutines s)[g := Exited]\<rparr>" by simp
    then show ?thesis by simp
  next
    case idle
    with assms Pick have "s' = s\<lparr>goroutines := (goroutines s)[g := L163]\<rparr>" by simp
    then show ?thesis by simp
  next
    case (pick a k)
    with assms Pick have "s' = s\<lparr>runningTask := Some a,
        heap := (heap s)[a := (heap s ! a)\<lparr>Status := ''processing''\<rparr>],
        goroutines := (goroutines s)[g := L163]\<rparr>" by simp
    then show ?thesis using pick(3,4) by auto
  qed
next
  case (Test g)
  then show ?thesis using assms by (auto simp: processQueue_L163_def)
next
  case (Call g)
  then show ?thesis using assms by (auto simp: processQueue_L164_def)
next
  case (Process g f)
  with assms have "processQueue_L177 f g s = Some s'" "enabled (Process g f) s" by simp_all
  then show ?thesis
  proof (cases rule: processQueue_L177_Some)
    case (1 a out err fs')
    from 1(5) have "queueID s' = queueID s"
      "heap s' = (heap s)[a := (heap s ! a)\<lparr>Status := ''completed'', Output := Some out\<rparr>]"
      by simp_all
    with 1(1,2,3) show ?thesis by blast
  qed
next
  case (Clear g)
  then show ?thesis using assms by (auto simp: processQueue_L165_def)
qed


lemma inv_heap_step:
  assumes "inv_heap s" "enabled e s" "step e s = Some s'"
  shows "inv_heap s'"
  using step_heap[OF assms(3,2)]
proof (elim disjE exE conjE)
  assume "heap s' = heap s" "queueID s' = queueID s"
  then show ?thesis using assms(1) by (simp add: inv_heap_def)
next
  fix u c p
  assume "heap s' = heap s @ [\<lparr>Prompt = p, ClientID = c, Status = ''pending'', Output = None,
                ID = queueID s + 1, PromptID = generatePromptID u\<rparr>]" "queueID s' = queueID s + 1"
  then show ?thesis using assms(1)
    by (auto simp: inv_heap_def nth_append)
next
  fix a k
  assume "prompts s k = Some a" "Status (heap s ! a) = ''pending''" "queueID s' = queueID s"
    "heap s' = (heap s)[a := (heap s ! a)\<lparr>Status := ''processing''\<rparr>]"
  then show ?thesis using assms(1)
    by (cases "a < length (heap s)") (auto simp: inv_heap_def nth_list_update)
next
  fix a out g
  assume "generateMockOutput (PromptID (heap s ! a)) = Some out" "queueID s' = queueID s"
    "heap s' = (heap s)[a := (heap s ! a)\<lparr>Status := ''completed'', Output := Some out\<rparr>]"
  then show ?thesis using assms(1)
    by (cases "a < length (heap s)") (auto simp: inv_heap_def nth_list_update)
qed

lemma inv_ptr_step:
  assumes "inv_ptr s" "enabled e s" "step e s = Some s'"
  shows "inv_ptr s'"
proof (cases e)
  case (POST_prompt u request)
  then show ?thesis using assms
    by (cases request) (auto simp: inv_ptr_def at_pc_def handlePrompt_def Let_def nth_append less_Suc_eq split: if_splits)
next
  case (GET_history x)
  then show ?thesis using assms by auto
next
  case (GET_queue ks)
  then show ?thesis using assms by auto
next
  case (Pick g ks)
  show ?thesis
  proof (cases rule: processQueue_L148_cases[of s ks g])
    case busy
    with assms Pick have "s' = s\<lparr>goroutines := (goroutines s)[g := Exited]\<rparr>" by simp
    then show ?thesis using assms(1,2) Pick
      by (auto simp: inv_ptr_def at_pc_def nth_list_update split: if_splits)
  next
    case idle
    with assms Pick have "s' = s\<lparr>goroutines := (goroutines s)[g := L163]\<rparr>" by simp
    then show ?thesis using assms(1,2) Pick
      by (auto simp: inv_ptr_def at_pc_def nth_list_update split: if_splits)
  next
    case (pick a k)
    with assms Pick have "s' = s\<lparr>runningTask := Some a,
        heap := (heap s)[a := (heap s ! a)\<lparr>Status := ''processing''\<rparr>],
        goroutines := (goroutines s)[g := L163]\<rparr>" by simp
    then show ?thesis using assms(1,2) Pick pick(3)
      by (auto simp: inv_ptr_def at_pc_def nth_list_update split: if_splits)
  qed
next
  case (Test g)
  then show ?thesis using assms by (auto simp: inv_ptr_def at_pc_def processQueue_L163_def nth_list_update split: if_splits)
next
  case (Call g)
  then show ?thesis using assms by (auto simp: inv_ptr_def at_pc_def processQueue_L164_def nth_list_update split: if_splits)
next
  case (Process g f)
  with assms have "processQueue_L177 f g s = Some s'" "enabled (Process g f) s" by simp_all
  then show ?thesis
  proof (cases rule: processQueue_L177_Some)
    case (1 a out err fs')
    then show ?thesis using assms(1)
      by (auto simp: inv_ptr_def nth_list_update split: if_splits)
  qed
next
  case (Clear g)
  then show ?thesis using assms by (auto simp: inv_ptr_def at_pc_def processQueue_L165_def nth_list_update nth_append split: if_splits)
qed

lemma inv_init: "inv_ptr (init fs0)" "inv_heap (init fs0)"
  by (simp_all add: inv_ptr_def inv_heap_def init_def)

lemma reachable_inv: "reachable s \<Longrightarrow> inv_ptr s \<and> inv_heap s"
  by (induction rule: reachable.induct) (auto simp: inv_init intro: inv_ptr_step inv_heap_step)


lemma ids:
  "generatePromptID 1 = ''00000000-0000-0000-0000-000000000001''"
  "generatePromptID 2 = ''00000000-0000-0000-0000-000000000002''"
  "generatePromptID 3 = ''00000000-0000-0000-0000-000000000003''"
  "generatePromptID 4 = ''00000000-0000-0000-0000-000000000004''"
  by (simp_all add: generatePromptID_def uuid_String_def hex_Encode_def uuid_byte_def
      hex_byte_def hexdigit_def drop_bit_eq_div)







lemma run_reachable: "reachable s \<Longrightarrow> run es s = Some s' \<Longrightarrow> reachable s'"
proof (induction es arbitrary: s)
  case Nil
  then show ?case by simp
next
  case (Cons e es)
  then show ?case
    by (auto split: if_splits option.splits intro: reachable_step)
qed

lemma step_heap_length:
  assumes "step e s = Some s'" "enabled e s"
  shows "length (heap s) \<le> length (heap s')"
  using step_heap [OF assms] by auto

lemma run_heap_length: "run es s = Some s' \<Longrightarrow> length (heap s) \<le> length (heap s')"
proof (induction es arbitrary: s)
  case Nil
  then show ?case by simp
next
  case (Cons e es)
  then show ?case
    by (fastforce split: if_splits option.splits dest: step_heap_length)
qed

lemma inv_heap_distinct: "inv_heap s \<Longrightarrow> distinct (map ID (heap s))"
  by (auto simp: inv_heap_def distinct_conv_nth)


lemmas step_defs = handlePrompt_def processQueue_L148_def processQueue_L163_def
  processQueue_L164_def processQueue_L177_def processQueue_L165_def processPrompt_def
  generateMockOutput_def copyAndRenameImage_def slice_to_def at_pc_def range_order_def
  os_MkdirAll_def os_Open_def os_Create_def io_Copy_def filepath_Join_def sourcePath_def
  outputDir_def Let_def

lemma run_asleep: "run trace_asleep (init fs) = Some (asleep fs)"
  by (simp add: trace_asleep_def asleep_def job1_def req_def init_def ids step_defs)

lemma run_window: "run [Process 0 NoFault] (asleep disk0) = Some window"
  by (simp add: asleep_def window_def job1_def output1_def disk0_def step_defs)

lemma run_append:
  "run (es @ es') s = (case run es s of None \<Rightarrow> None | Some s' \<Rightarrow> run es' s')"
  by (induction es arbitrary: s) (auto split: option.splits)

lemma asleep_reachable: "reachable (asleep fs)"
  using run_reachable [OF reachable_init run_asleep] .

lemma window_reachable: "reachable window"
  using run_reachable [OF asleep_reachable run_window] .

lemma processPrompt_total:
  assumes "inv_heap s" "a < length (heap s)"
  obtains out err fs' where
    "generateMockOutput (PromptID (heap s ! a)) = Some out"
    "copyAndRenameImage f (disk s) (PromptID (heap s ! a)) = Some (err, fs')"
    "processPrompt f (Some a) s =
       Some (s\<lparr>heap := (heap s)[a := (heap s ! a)\<lparr>Status := ''completed'', Output := Some out\<rparr>],
               disk := fs', stdout := stdout s @ (case err of None \<Rightarrow> [] | Some e \<Rightarrow> [e])\<rparr>)"
proof -
  from assms obtain u where u: "PromptID (heap s ! a) = generatePromptID u"
    by (auto simp: inv_heap_def)
  obtain out where out: "generateMockOutput (PromptID (heap s ! a)) = Some out"
    using generateMockOutput_generated [of u] u by auto
  obtain err fs' where c: "copyAndRenameImage f (disk s) (PromptID (heap s ! a)) = Some (err, fs')"
    using copyAndRenameImage_generated [of f "disk s" u] u by auto
  from out c have "processPrompt f (Some a) s =
       Some (s\<lparr>heap := (heap s)[a := (heap s ! a)\<lparr>Status := ''completed'', Output := Some out\<rparr>],
               disk := fs', stdout := stdout s @ (case err of None \<Rightarrow> [] | Some e \<Rightarrow> [e])\<rparr>)"
    by (simp add: processPrompt_def Let_def PromptID_update)
  with out c show ?thesis using that by blast
qed


lemma copyAndRenameImage_result:
  assumes "8 \<le> length promptID"
  shows "\<exists>err fs'. copyAndRenameImage f fs promptID = Some (err, fs') \<and>
           (f \<noteq> MkdirAllFault \<and> fs ''outputs'' = None \<longrightarrow> fs' ''outputs'' = Some Dir) \<and>
           (err = None \<longrightarrow>
              fs' ''outputs'' = Some Dir \<and>
              (\<exists>c. fs ''resources/image.jpg'' = Some (File c) \<and>
                   fs' (''outputs/output_'' @ take 8 promptID @ ''.jpg'') = Some (File c)))"
  using assms
  by (auto simp: copyAndRenameImage_def slice_to_def Let_def os_MkdirAll_def os_Open_def
      os_Create_def io_Copy_def filepath_Join_def sourcePath_def outputDir_def
      split: option.splits node.splits fault.splits if_splits)


lemma rangePending_finds:
  assumes "range_order m ks" "m k = Some b" "Status (h ! b) = ''pending''"
  obtains b' k' where "rangePending h m ks = Some b'" "m k' = Some b'" "Status (h ! b') = ''pending''"
proof (cases "rangePending h m ks")
  case None
  from assms(1,2) have "k \<in> set ks" by (auto simp: range_order_def)
  with None assms(2,3) show ?thesis using rangePending_None by blast
next
  case (Some b')
  with rangePending_Some [OF Some] that show ?thesis by blast
qed

lemma handlers_depend:
  assumes "heap s2 = heap s1" "prompts s2 = prompts s1" "runningTask s2 = runningTask s1"
  shows "fst (handleHistory s2 h93 h100 h101 promptID) = fst (handleHistory s1 h93 h100 h101 promptID)"
    and "fst (handleQueue ks s2) = fst (handleQueue ks s1)"
  using assms
  by (simp_all add: handleHistory_def handleQueue_def queueRunning_def queuePending_def
      split: option.splits)


lemma run_trace_window: "run trace_window (init disk0) = Some window"
  by (simp only: trace_window_def run_append run_asleep option.case run_window)

lemma race_run:
  "case run race_trace (init disk0) of
     None \<Rightarrow> False
   | Some s \<Rightarrow>
       prompts s (generatePromptID 3) = Some 2 \<and> prompts s (generatePromptID 4) = Some 3 \<and>
       Status (heap s ! 2) = ''processing'' \<and> Status (heap s ! 3) = ''processing'' \<and>
       length (queueRunning s) = 1"
  by (simp add: race_trace_def run_append run_trace_window window_def job1_def output1_def
      req_def ids step_defs nth_append queueRunning_def)

lemma nth_update_same:
  assumes "f v = f (h ! i)"
  shows "f (h[i := v] ! j) = f (h ! j)"
  using assms by (cases "i < length h"; cases "i = j") (simp_all add: list_update_beyond)

lemma step_keeps_job:
  assumes "step e s = Some s'" "enabled e s" "a < length (heap s)"
  shows "Prompt (heap s' ! a) = Prompt (heap s ! a) \<and> ClientID (heap s' ! a) = ClientID (heap s ! a) \<and>
         ID (heap s' ! a) = ID (heap s ! a) \<and> PromptID (heap s' ! a) = PromptID (heap s ! a)"
  using step_heap [OF assms(1,2)] assms(3)
  by (auto simp: nth_append nth_update_same [where f = Prompt] nth_update_same [where f = ClientID]
      nth_update_same [where f = ID] nth_update_same [where f = PromptID])

lemma processPrompt_via_L180:
  assumes "processPrompt f (Some a) s = Some s'"
  shows "\<exists>out. generateMockOutput (PromptID (heap s ! a)) = Some out \<and>
           heap s' = (heap_L180 a (heap s))[a := (heap_L180 a (heap s) ! a)\<lparr>Output := Some out\<rparr>]"
  using assms
proof (cases rule: processPrompt_Some)
  case (1 a' out err fs')
  then show ?thesis
    by (cases "a < length (heap s)") (auto simp: heap_L180_def list_update_beyond)
qed

lemma run_keeps_job:
  "run es s = Some s' \<Longrightarrow> a < length (heap s) \<Longrightarrow>
   Prompt (heap s' ! a) = Prompt (heap s ! a) \<and> PromptID (heap s' ! a) = PromptID (heap s ! a) \<and>
   ID (heap s' ! a) = ID (heap s ! a)"
proof (induction es arbitrary: s)
  case Nil
  then show ?case by simp
next
  case (Cons e es)
  from Cons.prems(1) obtain s1 where s1: "enabled e s" "step e s = Some s1" "run es s1 = Some s'"
    by (auto split: if_splits option.splits)
  from step_heap_length [OF s1(2,1)] Cons.prems(2) have "a < length (heap s1)" by simp
  with Cons.IH [OF s1(3)] step_keeps_job [OF s1(2,1) Cons.prems(2)] show ?case by simp
qed








text \<open>
  What \<^verbatim>\<open>handleHistory\<close> answers when its reads do not fall into a critical section:
  for a job that was found in a reachable state and is completed in the later state whose
  heap the reads see, the record holds the payload of the job and the document of
  \<^verbatim>\<open>generateMockOutput\<close>.
\<close>

lemma handleHistory_settled:
  assumes "reachable s" "prompts s promptID = Some a" "run es s = Some s1"
    "Status (heap s1 ! a) = ''completed''"
  shows "fst (handleHistory s (heap s1) (heap s1) (heap s1) promptID) =
           (200, JObject [(promptID, JObject
              [(''prompt'', Prompt (heap s ! a)),
               (''outputs'', JObject [(''9'', JObject [(''images'', JArray [JObject
                  [(''filename'', JString (take 8 (PromptID (heap s ! a)) @ ''.png'')),
                   (''subfolder'', JString ''''),
                   (''type'', JString ''output'')]])])]),
               (''status'', JObject
                  [(''status_str'', JString ''success''),
                   (''completed'', JBool True),
                   (''messages'', JArray
                      [JArray [JString ''execution_start'',
                               JObject [(''prompt_id'', JString promptID)]],
                       JArray [JString ''execution_cached'',
                               JObject [(''nodes'', JArray [JString ''4'', JString ''7'',
                                                            JString ''5'', JString ''6'']),
                                        (''prompt_id'', JString promptID)]]])])])])"
proof -
  from assms(1,2) have a: "a < length (heap s)"
    using reachable_inv [of s] by (auto simp: inv_ptr_def)
  from run_keeps_job [OF assms(3) a]
  have k: "Prompt (heap s1 ! a) = Prompt (heap s ! a)" "PromptID (heap s1 ! a) = PromptID (heap s ! a)"
    by simp_all
  from run_heap_length [OF assms(3)] a have a1: "a < length (heap s1)" by simp
  have i1: "inv_heap s1" using run_reachable [OF assms(1,3)] reachable_inv by blast
  from i1 a1 obtain u where u: "PromptID (heap s1 ! a) = generatePromptID u"
    by (auto simp: inv_heap_def)
  from i1 a1 assms(4) have "Output (heap s1 ! a) = generateMockOutput (PromptID (heap s1 ! a))"
    by (simp add: inv_heap_def)
  then have "Output (heap s1 ! a) =
      Some (JObject [(''9'', JObject [(''images'', JArray [JObject
                  [(''filename'', JString (take 8 (PromptID (heap s ! a)) @ ''.png'')),
                   (''subfolder'', JString ''''),
                   (''type'', JString ''output'')]])])])"
    using u k(2) by (simp add: generateMockOutput_def slice_to_def generatePromptID_length)
  then show ?thesis
    using assms(2,4) k(1) by (simp add: handleHistory_def json_of_map_def)
qed

lemma handlePrompt_stores:
  "prompts (snd (handlePrompt u (Inr (c, p)) s)) (generatePromptID u) = Some (length (heap s)) \<and>
   Prompt (heap (snd (handlePrompt u (Inr (c, p)) s)) ! length (heap s)) = p"
  by (simp add: handlePrompt_def Let_def)

lemma asleep_torn:
  "heap_torn = [job1 ''completed'' None]"
  by (simp add: heap_torn_def heap_L180_def asleep_def job1_def)

section \<open>The claims\<close>

text \<open>
  C1 does not hold of the code. \<^verbatim>\<open>processQueue\<close> tests and passes on
  \<^verbatim>\<open>m.runningTask\<close> at lines 163 and 164 after it has released the lock, so a goroutine
  that picked nothing can take over the job of another one. The schedule
  \<open>race_trace\<close> ends in a reachable state in which two jobs of the table have the
  status \<^verbatim>\<open>processing\<close>.
\<close>

theorem two_jobs_processing:
  "\<exists>s. run race_trace (init disk0) = Some s \<and> reachable s \<and>
     prompts s (generatePromptID 3) = Some 2 \<and> prompts s (generatePromptID 4) = Some 3 \<and>
     Status (heap s ! 2) = ''processing'' \<and> Status (heap s ! 3) = ''processing''"
proof (cases "run race_trace (init disk0)")
  case None
  with race_run show ?thesis by simp
next
  case (Some s)
  with race_run run_reachable [OF reachable_init Some] show ?thesis by simp
qed

text \<open>
  C2 does not hold of the code. \<^verbatim>\<open>processPrompt\<close> releases the lock when it returns, and
  \<^verbatim>\<open>processQueue\<close> takes it again at line 165 to clear the marker. In between, the
  marker points to a job that is \<^verbatim>\<open>completed\<close>: after \<open>trace_window\<close> the running
  list of \<^verbatim>\<open>handleQueue\<close> holds the completed job.
\<close>

theorem completed_job_in_running_list:
  "run trace_window (init disk0) = Some window \<and> reachable window \<and>
   prompts window (generatePromptID 1) = Some 0 \<and>
   runningTask window = Some 0 \<and>
   Status (heap window ! 0) = ''completed'' \<and>
   range_order (prompts window) [generatePromptID 1] \<and>
   fst (handleQueue [generatePromptID 1] window) =
     (200, JObject
        [(''queue_running'', JArray [queue_entry (heap window ! 0)]),
         (''queue_pending'', JArray [])])"
  using run_trace_window window_reachable
  by (simp add: window_def job1_def ids handleQueue_def queueRunning_def queuePending_def
      range_order_def)

text \<open>
  C3 does not hold of the code. \<^verbatim>\<open>handleHistory\<close> releases the lock at line 86 and reads
  the status and the output of the job afterwards, at lines 93 and 101, while
  \<^verbatim>\<open>processPrompt\<close> writes them under the lock at lines 180 and 181. A query whose reads
  fall between these two lines finds the status \<^verbatim>\<open>completed\<close> and no output: for the
  job of \<open>asleep disk0\<close> it answers with the success record whose \<^verbatim>\<open>outputs\<close> is
  \<^verbatim>\<open>null\<close>, although the step of \<^verbatim>\<open>processPrompt\<close> that is under way stores the
  output document. Had the reads come after that step, the record would hold the
  document.
\<close>

theorem handleHistory_reads_unlocked:
  "reachable (asleep disk0) \<and>
   prompts (asleep disk0) (generatePromptID 1) = Some 0 \<and>
   readable (asleep disk0) heap_torn \<and>
   Status (heap_torn ! 0) = ''completed'' \<and>
   Output (heap_torn ! 0) = None \<and>
   fst (handleHistory (asleep disk0) heap_torn heap_torn heap_torn (generatePromptID 1)) =
     (200, JObject [(''00000000-0000-0000-0000-000000000001'', JObject
        [(''prompt'', JObject [(''a'', JInt 1)]),
         (''outputs'', JNull),
         (''status'', JObject
            [(''status_str'', JString ''success''),
             (''completed'', JBool True),
             (''messages'', JArray
                [JArray [JString ''execution_start'',
                         JObject [(''prompt_id'', JString ''00000000-0000-0000-0000-000000000001'')]],
                 JArray [JString ''execution_cached'',
                         JObject [(''nodes'', JArray [JString ''4'', JString ''7'',
                                                      JString ''5'', JString ''6'']),
                                  (''prompt_id'',
                                   JString ''00000000-0000-0000-0000-000000000001'')]]])])])]) \<and>
   run [Process 0 NoFault] (asleep disk0) = Some window \<and>
   Output (heap window ! 0) = Some output1 \<and>
   fst (handleHistory (asleep disk0) (heap window) (heap window) (heap window)
          (generatePromptID 1)) =
     (200, JObject [(''00000000-0000-0000-0000-000000000001'', JObject
        [(''prompt'', JObject [(''a'', JInt 1)]),
         (''outputs'', JObject [(''9'', JObject [(''images'', JArray [JObject
            [(''filename'', JString ''00000000.png''),
             (''subfolder'', JString []),
             (''type'', JString ''output'')]])])]),
         (''status'', JObject
            [(''status_str'', JString ''success''),
             (''completed'', JBool True),
             (''messages'', JArray
                [JArray [JString ''execution_start'',
                         JObject [(''prompt_id'', JString ''00000000-0000-0000-0000-000000000001'')]],
                 JArray [JString ''execution_cached'',
                         JObject [(''nodes'', JArray [JString ''4'', JString ''7'',
                                                      JString ''5'', JString ''6'']),
                                  (''prompt_id'',
                                   JString ''00000000-0000-0000-0000-000000000001'')]]])])])])"
proof -
  have "readable (asleep disk0) heap_torn"
    unfolding readable_def heap_torn_def
    by (rule disjI2, rule exI [of _ 0], rule exI [of _ 0]) (simp add: asleep_def)
  moreover have "prompts (asleep disk0) (generatePromptID 1) = Some 0"
    by (simp add: asleep_def ids)
  moreover have "Output (heap window ! 0) = Some output1"
    by (simp add: window_def job1_def)
  moreover have "fst (handleHistory (asleep disk0) (heap window) (heap window) (heap window)
          (generatePromptID 1)) =
     (200, JObject [(''00000000-0000-0000-0000-000000000001'', JObject
        [(''prompt'', JObject [(''a'', JInt 1)]),
         (''outputs'', JObject [(''9'', JObject [(''images'', JArray [JObject
            [(''filename'', JString ''00000000.png''),
             (''subfolder'', JString []),
             (''type'', JString ''output'')]])])]),
         (''status'', JObject
            [(''status_str'', JString ''success''),
             (''completed'', JBool True),
             (''messages'', JArray
                [JArray [JString ''execution_start'',
                         JObject [(''prompt_id'', JString ''00000000-0000-0000-0000-000000000001'')]],
                 JArray [JString ''execution_cached'',
                         JObject [(''nodes'', JArray [JString ''4'', JString ''7'',
                                                      JString ''5'', JString ''6'']),
                                  (''prompt_id'',
                                   JString ''00000000-0000-0000-0000-000000000001'')]]])])])])"
    by (simp add: handleHistory_def json_of_map_def asleep_def window_def job1_def output1_def ids)
  ultimately show ?thesis
    using asleep_reachable [of disk0] run_window
    by (simp add: handleHistory_def json_of_map_def asleep_torn job1_def ids)
qed

text \<open>
  C4. Let a goroutine of the loop be inside \<^verbatim>\<open>processPrompt\<close> for a job, in a reachable
  state, and let the copy of the artifact fail with an error. Then the step does not
  panic; afterwards the job is \<^verbatim>\<open>completed\<close> and has its output, and the error is
  the one line added to the standard output. The responses of \<^verbatim>\<open>handleHistory\<close> and
  \<^verbatim>\<open>handleQueue\<close> are the same as after any other outcome of the copy, a successful
  one included, and so is the heap that later reads see. The goroutine goes on to clear the marker and starts the loop again, and
  the goroutine it starts picks a pending job if the table has one.
\<close>

theorem copy_failure_only_logged:
  assumes "reachable s" and "g < length (goroutines s)" and "goroutines s ! g = L177 (Some a)"
    and "copyAndRenameImage f (disk s) (PromptID (heap s ! a)) = Some (Some e, fs')"
  shows "\<exists>s'. step (Process g f) s = Some s' \<and>
           Status (heap s' ! a) = ''completed'' \<and> Output (heap s' ! a) \<noteq> None \<and>
           stdout s' = stdout s @ [e] \<and>
           (\<forall>f2 s2. step (Process g f2) s = Some s2 \<longrightarrow>
              heap s2 = heap s' \<and>
              (\<forall>h93 h100 h101 promptID.
                 fst (handleHistory s2 h93 h100 h101 promptID) =
                   fst (handleHistory s' h93 h100 h101 promptID)) \<and>
              (\<forall>ks. fst (handleQueue ks s2) = fst (handleQueue ks s'))) \<and>
           enabled (Clear g) s' \<and>
           (\<exists>s3. step (Clear g) s' = Some s3 \<and> runningTask s3 = None \<and>
              at_pc (length (goroutines s')) L148 s3 \<and>
              (\<forall>ks k b. range_order (prompts s3) ks \<and> prompts s3 k = Some b \<and>
                   Status (heap s3 ! b) = ''pending'' \<longrightarrow>
                 enabled (Pick (length (goroutines s')) ks) s3 \<and>
                 (\<exists>b'. Status (heap s3 ! b') = ''pending'' \<and>
                    runningTask (processQueue_L148 ks (length (goroutines s')) s3) = Some b' \<and>
                    Status (heap (processQueue_L148 ks (length (goroutines s')) s3) ! b') =
                      ''processing'')))"
proof -
  from assms(1-3) have i: "inv_heap s" and p: "inv_ptr s" and a: "a < length (heap s)"
    using reachable_inv [of s] by (auto simp: inv_ptr_def)
  have en: "enabled (Process g f2) s" for f2 using assms(2,3) by simp
  obtain out err0 fs0 where out: "generateMockOutput (PromptID (heap s ! a)) = Some out"
    and c0: "copyAndRenameImage f (disk s) (PromptID (heap s ! a)) = Some (err0, fs0)"
    and pp0: "processPrompt f (Some a) s =
       Some (s\<lparr>heap := (heap s)[a := (heap s ! a)\<lparr>Status := ''completed'', Output := Some out\<rparr>],
               disk := fs0, stdout := stdout s @ (case err0 of None \<Rightarrow> [] | Some e \<Rightarrow> [e])\<rparr>)"
    by (rule processPrompt_total [OF i a, of f])
  from c0 assms(4) have "err0 = Some e" "fs0 = fs'" by simp_all
  with pp0 have pp: "processPrompt f (Some a) s =
       Some (s\<lparr>heap := (heap s)[a := (heap s ! a)\<lparr>Status := ''completed'', Output := Some out\<rparr>],
               disk := fs', stdout := stdout s @ [e]\<rparr>)"
    by simp
  define s' where "s' = s\<lparr>heap := (heap s)[a := (heap s ! a)\<lparr>Status := ''completed'', Output := Some out\<rparr>],
               disk := fs', stdout := stdout s @ [e], goroutines := (goroutines s)[g := L165]\<rparr>"
  have st: "step (Process g f) s = Some s'"
    using pp assms(3) by (simp add: processQueue_L177_def s'_def)
  have f1: "Status (heap s' ! a) = ''completed''" "Output (heap s' ! a) \<noteq> None"
    "stdout s' = stdout s @ [e]" "enabled (Clear g) s'"
    using a assms(2) by (simp_all add: s'_def at_pc_def)
  have f2: "heap s2 = heap s' \<and>
            (\<forall>h93 h100 h101 promptID.
               fst (handleHistory s2 h93 h100 h101 promptID) =
                 fst (handleHistory s' h93 h100 h101 promptID)) \<and>
            (\<forall>ks. fst (handleQueue ks s2) = fst (handleQueue ks s'))"
    if "step (Process g f2) s = Some s2" for f2 s2
  proof -
    from that have q: "processQueue_L177 f2 g s = Some s2" by simp
    obtain a2 out2 err2 fs2 where x: "goroutines s ! g = L177 (Some a2)"
      "g < length (goroutines s)"
      "generateMockOutput (PromptID (heap s ! a2)) = Some out2"
      "copyAndRenameImage f2 (disk s) (PromptID (heap s ! a2)) = Some (err2, fs2)"
      "s2 = s\<lparr>heap := (heap s)[a2 := (heap s ! a2)\<lparr>Status := ''completed'', Output := Some out2\<rparr>],
            disk := fs2, stdout := stdout s @ (case err2 of None \<Rightarrow> [] | Some e \<Rightarrow> [e]),
            goroutines := (goroutines s)[g := L165]\<rparr>"
      by (rule processQueue_L177_Some [OF q en])
    with assms(3) out have "heap s2 = heap s'" "prompts s2 = prompts s'"
      "runningTask s2 = runningTask s'"
      by (simp_all add: s'_def)
    then show ?thesis using handlers_depend by blast
  qed
  define s3 where "s3 = processQueue_L165 g s'"
  have r3: "reachable s3"
    using reachable_step [OF reachable_step [OF assms(1) en st] f1(4), of s3] by (simp add: s3_def)
  have g3: "step (Clear g) s' = Some s3" "runningTask s3 = None"
    "at_pc (length (goroutines s')) L148 s3"
    by (simp_all add: s3_def processQueue_L165_def at_pc_def nth_append)
  have f3: "enabled (Pick (length (goroutines s')) ks) s3 \<and>
        (\<exists>b'. Status (heap s3 ! b') = ''pending'' \<and>
           runningTask (processQueue_L148 ks (length (goroutines s')) s3) = Some b' \<and>
           Status (heap (processQueue_L148 ks (length (goroutines s')) s3) ! b') = ''processing'')"
    if h: "range_order (prompts s3) ks" "prompts s3 k = Some b" "Status (heap s3 ! b) = ''pending''"
    for ks k b
  proof -
    from h obtain b' k' where b': "rangePending (heap s3) (prompts s3) ks = Some b'"
      "prompts s3 k' = Some b'" "Status (heap s3 ! b') = ''pending''"
      by (rule rangePending_finds)
    from r3 b'(2) have "b' < length (heap s3)"
      using reachable_inv [of s3] by (auto simp: inv_ptr_def)
    with b' g3(2) have "runningTask (processQueue_L148 ks (length (goroutines s')) s3) = Some b'"
      "Status (heap (processQueue_L148 ks (length (goroutines s')) s3) ! b') = ''processing''"
      by (simp_all add: processQueue_L148_pick)
    with b'(3) g3(3) h(1) show ?thesis by auto
  qed
  from f2 have F2: "\<forall>f2 s2. step (Process g f2) s = Some s2 \<longrightarrow>
              heap s2 = heap s' \<and>
              (\<forall>h93 h100 h101 promptID.
                 fst (handleHistory s2 h93 h100 h101 promptID) =
                   fst (handleHistory s' h93 h100 h101 promptID)) \<and>
              (\<forall>ks. fst (handleQueue ks s2) = fst (handleQueue ks s'))"
    by (intro allI impI)
  from f3 have F3: "\<forall>ks k b. range_order (prompts s3) ks \<and> prompts s3 k = Some b \<and>
                   Status (heap s3 ! b) = ''pending'' \<longrightarrow>
                 enabled (Pick (length (goroutines s')) ks) s3 \<and>
                 (\<exists>b'. Status (heap s3 ! b') = ''pending'' \<and>
                    runningTask (processQueue_L148 ks (length (goroutines s')) s3) = Some b' \<and>
                    Status (heap (processQueue_L148 ks (length (goroutines s')) s3) ! b') =
                      ''processing'')"
    by (intro allI impI) (elim conjE)
  show ?thesis
    apply (rule exI [of _ s'])
    apply (intro conjI st f1 F2)
    apply (rule exI [of _ s3])
    apply (intro conjI g3 F3)
    done
qed

theorem copy_failure_only_logged_witness:
  "reachable (asleep Map.empty) \<and>
   goroutines (asleep Map.empty) ! 0 = L177 (Some 0) \<and>
   copyAndRenameImage NoFault (disk (asleep Map.empty)) (PromptID (heap (asleep Map.empty) ! 0)) =
     Some (Some OpenError, [''outputs'' \<mapsto> Dir]) \<and>
   (\<exists>s'. step (Process 0 NoFault) (asleep Map.empty) = Some s' \<and>
      Status (heap s' ! 0) = ''completed'' \<and> Output (heap s' ! 0) \<noteq> None \<and>
      stdout s' = [OpenError] \<and> enabled (Clear 0) s')"
proof -
  have g: "0 < length (goroutines (asleep Map.empty))"
    "goroutines (asleep Map.empty) ! 0 = L177 (Some 0)"
    by (simp_all add: asleep_def)
  have c: "copyAndRenameImage NoFault (disk (asleep Map.empty))
      (PromptID (heap (asleep Map.empty) ! 0)) = Some (Some OpenError, [''outputs'' \<mapsto> Dir])"
    by (simp add: asleep_def job1_def step_defs)
  from copy_failure_only_logged [OF asleep_reachable g c]
  obtain s' where "step (Process 0 NoFault) (asleep Map.empty) = Some s'"
    "Status (heap s' ! 0) = ''completed''" "Output (heap s' ! 0) \<noteq> None"
    "stdout s' = stdout (asleep Map.empty) @ [OpenError]" "enabled (Clear 0) s'"
    by blast
  then have "\<exists>s'. step (Process 0 NoFault) (asleep Map.empty) = Some s' \<and>
      Status (heap s' ! 0) = ''completed'' \<and> Output (heap s' ! 0) \<noteq> None \<and>
      stdout s' = [OpenError] \<and> enabled (Clear 0) s'"
    by (simp add: asleep_def)
  with asleep_reachable g(2) c show ?thesis by blast
qed

text \<open>
  C5. \<^verbatim>\<open>handleHistory\<close> answers 404 with the body \<^verbatim>\<open>{"error": "Prompt not found"}\<close>
  exactly when the table has no job under the id, answers 200 otherwise, and leaves the
  state as it was, whatever it reads after the lookup.
\<close>

theorem handleHistory_not_found:
  "(handleHistory s h93 h100 h101 promptID =
      ((404, JObject [(''error'', JString ''Prompt not found'')]), s)) =
     (prompts s promptID = None) \<and>
   (fst (fst (handleHistory s h93 h100 h101 promptID)) = 200) = (prompts s promptID \<noteq> None) \<and>
   snd (handleHistory s h93 h100 h101 promptID) = s"
  by (simp add: handleHistory_def split: option.splits)

theorem handleHistory_not_found_witness:
  "prompts two_pending ''unknown-id'' = None \<and>
   handleHistory two_pending (heap two_pending) (heap two_pending) (heap two_pending)
       ''unknown-id'' =
     ((404, JObject [(''error'', JString ''Prompt not found'')]), two_pending) \<and>
   prompts two_pending (generatePromptID 1) \<noteq> None \<and>
   fst (fst (handleHistory two_pending (heap two_pending) (heap two_pending) (heap two_pending)
       (generatePromptID 1))) = 200"
proof -
  have a: "prompts two_pending ''unknown-id'' = None"
    by (simp add: two_pending_def handlePrompt_def req_def init_def Let_def ids)
  have b: "prompts two_pending (generatePromptID 1) \<noteq> None"
    by (simp add: two_pending_def handlePrompt_def req_def init_def Let_def ids)
  from a b
    handleHistory_not_found [of two_pending "heap two_pending" "heap two_pending"
      "heap two_pending" "''unknown-id''"]
    handleHistory_not_found [of two_pending "heap two_pending" "heap two_pending"
      "heap two_pending" "generatePromptID 1"]
  show ?thesis by simp
qed

text \<open>
  C6. In every reachable state a job of the table has an output exactly when its status
  is \<^verbatim>\<open>completed\<close>. \<^verbatim>\<open>handlePrompt\<close> stores a job that is pending and has no output,
  and \<^verbatim>\<open>processPrompt\<close>, which runs under the lock from its first assignment to its
  return, sets the status and the output together and does not panic.
\<close>

theorem result_iff_completed:
  assumes "reachable s" and "prompts s k = Some a"
  shows "(Output (heap s ! a) \<noteq> None) = (Status (heap s ! a) = ''completed'') \<and>
         (\<exists>b. prompts (snd (handlePrompt u (Inr (c, p)) s)) (generatePromptID u) = Some b \<and>
              Status (heap (snd (handlePrompt u (Inr (c, p)) s)) ! b) = ''pending'' \<and>
              Output (heap (snd (handlePrompt u (Inr (c, p)) s)) ! b) = None) \<and>
         (\<exists>s'. processPrompt f (Some a) s = Some s' \<and>
              Status (heap s' ! a) = ''completed'' \<and> Output (heap s' ! a) \<noteq> None)"
proof -
  from assms have i: "inv_heap s" and a: "a < length (heap s)"
    using reachable_inv [of s] by (auto simp: inv_ptr_def)
  from i a have 1: "(Output (heap s ! a) \<noteq> None) = (Status (heap s ! a) = ''completed'')"
    by (simp add: inv_heap_def)
  have 2: "\<exists>b. prompts (snd (handlePrompt u (Inr (c, p)) s)) (generatePromptID u) = Some b \<and>
              Status (heap (snd (handlePrompt u (Inr (c, p)) s)) ! b) = ''pending'' \<and>
              Output (heap (snd (handlePrompt u (Inr (c, p)) s)) ! b) = None"
    by (simp add: handlePrompt_def Let_def)
  have 3: "\<exists>s'. processPrompt f (Some a) s = Some s' \<and>
              Status (heap s' ! a) = ''completed'' \<and> Output (heap s' ! a) \<noteq> None"
  proof (rule processPrompt_total [OF i a, of f])
    fix out err fs'
    assume "processPrompt f (Some a) s =
       Some (s\<lparr>heap := (heap s)[a := (heap s ! a)\<lparr>Status := ''completed'', Output := Some out\<rparr>],
               disk := fs', stdout := stdout s @ (case err of None \<Rightarrow> [] | Some e \<Rightarrow> [e])\<rparr>)"
    then show ?thesis using a by simp
  qed
  from 1 2 3 show ?thesis by blast
qed

theorem result_iff_completed_witness:
  "reachable window \<and> prompts window (generatePromptID 1) = Some 0 \<and>
   Output (heap window ! 0) \<noteq> None \<and> Status (heap window ! 0) = ''completed'' \<and>
   reachable (asleep disk0) \<and> prompts (asleep disk0) (generatePromptID 1) = Some 0 \<and>
   Output (heap (asleep disk0) ! 0) = None \<and> Status (heap (asleep disk0) ! 0) \<noteq> ''completed''"
proof -
  have a: "prompts window (generatePromptID 1) = Some 0"
    and b: "prompts (asleep disk0) (generatePromptID 1) = Some 0"
    by (simp_all add: window_def asleep_def ids)
  have c: "Status (heap window ! 0) = ''completed''"
    and d: "Status (heap (asleep disk0) ! 0) \<noteq> ''completed''"
    by (simp_all add: window_def asleep_def job1_def)
  from result_iff_completed [OF window_reachable a] result_iff_completed [OF asleep_reachable b]
  show ?thesis using a b c d window_reachable asleep_reachable by simp
qed

text \<open>
  C7. In every reachable state the output of a completed job of the table is the document
  \<^verbatim>\<open>{"9": {"images": [{"filename": p + ".png", "subfolder": "", "type": "output"}]}}\<close>
  where \<^verbatim>\<open>p\<close> is the first eight characters of its id. For such an id
  \<^verbatim>\<open>copyAndRenameImage\<close> does not panic; it creates the directory \<^verbatim>\<open>outputs\<close> when that
  is absent and can be created, and when it returns no error the content of
  \<^verbatim>\<open>resources/image.jpg\<close> is in the file \<^verbatim>\<open>outputs/output_\<close>\<^verbatim>\<open>p\<close>\<^verbatim>\<open>.jpg\<close>.
\<close>

theorem completed_result_document:
  assumes "reachable s" and "prompts s k = Some a" and "Status (heap s ! a) = ''completed''"
  shows "Output (heap s ! a) =
           Some (JObject [(''9'', JObject [(''images'', JArray [JObject
             [(''filename'', JString (take 8 (PromptID (heap s ! a)) @ ''.png'')),
              (''subfolder'', JString ''''),
              (''type'', JString ''output'')]])])]) \<and>
         (\<exists>err fs'. copyAndRenameImage f fs (PromptID (heap s ! a)) = Some (err, fs') \<and>
            (f \<noteq> MkdirAllFault \<and> fs ''outputs'' = None \<longrightarrow> fs' ''outputs'' = Some Dir) \<and>
            (err = None \<longrightarrow>
               fs' ''outputs'' = Some Dir \<and>
               (\<exists>c. fs ''resources/image.jpg'' = Some (File c) \<and>
                    fs' (''outputs/output_'' @ take 8 (PromptID (heap s ! a)) @ ''.jpg'') =
                      Some (File c))))"
proof -
  from assms(1,2) have i: "inv_heap s" and a: "a < length (heap s)"
    using reachable_inv [of s] by (auto simp: inv_ptr_def)
  from i a obtain u where u: "PromptID (heap s ! a) = generatePromptID u"
    by (auto simp: inv_heap_def)
  then have l: "8 \<le> length (PromptID (heap s ! a))"
    by (simp add: generatePromptID_length)
  from i a assms(3) have "Output (heap s ! a) = generateMockOutput (PromptID (heap s ! a))"
    by (simp add: inv_heap_def)
  with l have "Output (heap s ! a) =
           Some (JObject [(''9'', JObject [(''images'', JArray [JObject
             [(''filename'', JString (take 8 (PromptID (heap s ! a)) @ ''.png'')),
              (''subfolder'', JString ''''),
              (''type'', JString ''output'')]])])])"
    by (simp add: generateMockOutput_def slice_to_def)
  then show ?thesis using copyAndRenameImage_result [OF l, of f fs] by blast
qed

theorem completed_result_document_witness:
  "reachable window \<and> prompts window (generatePromptID 1) = Some 0 \<and>
   Status (heap window ! 0) = ''completed'' \<and>
   Output (heap window ! 0) =
     Some (JObject [(''9'', JObject [(''images'', JArray [JObject
       [(''filename'', JString ''00000000.png''),
        (''subfolder'', JString ''''),
        (''type'', JString ''output'')]])])]) \<and>
   disk0 ''outputs'' = None \<and>
   copyAndRenameImage NoFault disk0 (PromptID (heap window ! 0)) =
     Some (None, disk0(''outputs'' \<mapsto> Dir, ''outputs/output_00000000.jpg'' \<mapsto> File ''jpeg''))"
proof -
  have a: "prompts window (generatePromptID 1) = Some 0"
    by (simp add: window_def ids)
  have c: "Status (heap window ! 0) = ''completed''"
    by (simp add: window_def job1_def)
  have d: "copyAndRenameImage NoFault disk0 (PromptID (heap window ! 0)) =
     Some (None, disk0(''outputs'' \<mapsto> Dir, ''outputs/output_00000000.jpg'' \<mapsto> File ''jpeg''))"
    by (simp add: window_def job1_def disk0_def step_defs)
  have e: "PromptID (heap window ! 0) = ''00000000-0000-0000-0000-000000000001''"
    by (simp add: window_def job1_def)
  from completed_result_document [OF window_reachable a c, of NoFault disk0]
  show ?thesis using a c d window_reachable by (simp add: e disk0_def)
qed

text \<open>
  C8. Of two accepted submissions, the later one is given the larger sequence number:
  each takes the counter after its increment, the number of a stored job never changes,
  and no two jobs ever created share a number.
\<close>

theorem sequence_numbers_increase:
  assumes "reachable s0"
    and "s1 = snd (handlePrompt u1 (Inr r1) s0)"
    and "run es s1 = Some s2"
    and "s3 = snd (handlePrompt u2 (Inr r2) s2)"
  shows "\<exists>a1 a3. prompts s1 (generatePromptID u1) = Some a1 \<and>
           prompts s3 (generatePromptID u2) = Some a3 \<and>
           ID (heap s1 ! a1) = queueID s1 \<and> ID (heap s3 ! a3) = queueID s3 \<and>
           ID (heap s1 ! a1) < ID (heap s3 ! a3) \<and>
           ID (heap s3 ! a1) = ID (heap s1 ! a1) \<and>
           distinct (map ID (heap s3))"
proof -
  have r1: "reachable s1"
    using assms(1,2) reachable_step [of s0 "POST_prompt u1 (Inr r1)" s1] by simp
  then have r2: "reachable s2" using assms(3) run_reachable by blast
  then have r3: "reachable s3"
    using assms(4) reachable_step [of s2 "POST_prompt u2 (Inr r2)" s3] by simp
  obtain c1 p1 where [simp]: "r1 = (c1, p1)" by (cases r1)
  obtain c2 p2 where [simp]: "r2 = (c2, p2)" by (cases r2)
  let ?a1 = "length (heap s0)" and ?a3 = "length (heap s2)"
  have l1: "length (heap s1) = Suc ?a1" and t1: "prompts s1 (generatePromptID u1) = Some ?a1"
    using assms(2) by (simp_all add: handlePrompt_def Let_def)
  have l3: "length (heap s3) = Suc ?a3" and t3: "prompts s3 (generatePromptID u2) = Some ?a3"
    using assms(4) by (simp_all add: handlePrompt_def Let_def)
  have le: "Suc ?a1 \<le> ?a3" using run_heap_length [OF assms(3)] l1 by simp
  have i1: "inv_heap s1" and i3: "inv_heap s3" using r1 r3 reachable_inv by blast+
  have "ID (heap s1 ! ?a1) = int ?a1 + 1" "queueID s1 = int ?a1 + 1"
    using i1 l1 by (simp_all add: inv_heap_def)
  moreover have "ID (heap s3 ! ?a3) = int ?a3 + 1" "queueID s3 = int ?a3 + 1"
    "ID (heap s3 ! ?a1) = int ?a1 + 1"
    using i3 l3 le by (simp_all add: inv_heap_def)
  ultimately show ?thesis using t1 t3 le inv_heap_distinct [OF i3] by simp
qed

theorem sequence_numbers_increase_witness:
  "reachable (init disk0) \<and>
   (\<exists>s2. run [Pick 0 [generatePromptID 1]] (snd (handlePrompt 1 req (init disk0))) = Some s2 \<and>
      (\<exists>a1 a3. prompts (snd (handlePrompt 1 req (init disk0))) (generatePromptID 1) = Some a1 \<and>
         prompts (snd (handlePrompt 2 req s2)) (generatePromptID 2) = Some a3 \<and>
         ID (heap (snd (handlePrompt 1 req (init disk0))) ! a1) <
           ID (heap (snd (handlePrompt 2 req s2)) ! a3)))"
proof -
  let ?s1 = "snd (handlePrompt 1 req (init disk0))"
  have e: "enabled (Pick 0 [generatePromptID 1]) ?s1"
    by (simp add: handlePrompt_def req_def init_def Let_def at_pc_def range_order_def)
  then have r: "run [Pick 0 [generatePromptID 1]] ?s1 =
      Some (processQueue_L148 [generatePromptID 1] 0 ?s1)"
    by simp
  from sequence_numbers_increase [OF reachable_init, of ?s1 1 "(''c1'', JObject [(''a'', JInt 1)])"
      disk0 "[Pick 0 [generatePromptID 1]]" _ _ 2 "(''c1'', JObject [(''a'', JInt 1)])", OF _ r]
  show ?thesis using r reachable_init [of disk0] by (auto simp: req_def)
qed




text \<open>
  C10. Every identifier that \<^verbatim>\<open>generatePromptID\<close> returns has 36 characters, so
  taking its first eight characters is in range: neither \<^verbatim>\<open>generateMockOutput\<close> nor
  \<^verbatim>\<open>copyAndRenameImage\<close> panics on it, whatever the file system does.
\<close>

theorem generated_id_truncation:
  "length (generatePromptID u) = 36 \<and>
   slice_to (generatePromptID u) 8 = Some (take 8 (generatePromptID u)) \<and>
   generateMockOutput (generatePromptID u) \<noteq> None \<and>
   copyAndRenameImage f fs (generatePromptID u) \<noteq> None"
  by (simp add: generatePromptID_length slice_to_def generateMockOutput_generated
      copyAndRenameImage_generated)

theorem generated_id_truncation_witness:
  "length (generatePromptID 1) = 36 \<and>
   slice_to (generatePromptID 1) 8 = Some ''00000000'' \<and>
   generateMockOutput (generatePromptID 1) \<noteq> None \<and>
   copyAndRenameImage NoFault disk0 (generatePromptID 1) \<noteq> None"
  using generated_id_truncation [of 1 NoFault disk0] by (simp add: ids)

end
